theory Spec2Isabelle
  imports Main "HOL-Library.Word" "HOL-Library.Signed_Division"
begin

unbundle bit_operations_syntax

section \<open>Library functions used by the handler\<close>

text \<open>
  Go strings and byte slices are sequences of bytes: \<open>string\<close> (a list of 8-bit
  characters) for the former, \<open>byte list\<close> for the latter.
\<close>

type_synonym byte = "8 word"
type_synonym int64 = "64 word"

subsection \<open>Package strings\<close>

text \<open>\<^verbatim>\<open>strings.Join(elems, sep)\<close>.\<close>

fun strings_Join :: "string list \<Rightarrow> string \<Rightarrow> string" where
  "strings_Join [] sep = []"
| "strings_Join [x] sep = x"
| "strings_Join (x # y # ys) sep = x @ sep @ strings_Join (y # ys) sep"

text \<open>
  \<^verbatim>\<open>strings.Index(s, sep)\<close> for a separator of one byte, which is how the handler
  calls it: the index of the first occurrence, or -1.
\<close>

fun strings_Index :: "string \<Rightarrow> char \<Rightarrow> int" where
  "strings_Index [] c = - 1"
| "strings_Index (x # xs) c =
     (if x = c then 0
      else (let i = strings_Index xs c in if i = - 1 then - 1 else i + 1))"

text \<open>
  \<^verbatim>\<open>strings.Split(s, sep)\<close> for a separator of one byte: the pieces between the
  separators, one more than there are separators (so never the empty list).
\<close>

fun strings_Split :: "string \<Rightarrow> char \<Rightarrow> string list" where
  "strings_Split [] c = [[]]"
| "strings_Split (x # xs) c =
     (if x = c then [] # strings_Split xs c
      else (case strings_Split xs c of
              [] \<Rightarrow> [[x]]
            | p # ps \<Rightarrow> (x # p) # ps))"

subsection \<open>Package fmt\<close>

text \<open>The verb \<^verbatim>\<open>%d\<close> on a non-negative integer (a length).\<close>

definition decimal_digits :: string where
  "decimal_digits = ''0123456789''"

fun fmt_d :: "nat \<Rightarrow> string" where
  "fmt_d n = (if n < 10 then [decimal_digits ! n]
              else fmt_d (n div 10) @ [decimal_digits ! (n mod 10)])"

declare fmt_d.simps [simp del]

text \<open>
  The verb \<^verbatim>\<open>%x\<close> on a byte slice: two lower-case digits for each byte,
  \<^verbatim>\<open>ldigits[c>>4]\<close> and \<^verbatim>\<open>ldigits[c&0xF]\<close>. The widths that
  \<^verbatim>\<open>generateUUID\<close> asks for (8, 4, 4, 4, 12) are the lengths these slices print
  at already, so no padding is added.
\<close>

definition ldigits :: string where
  "ldigits = ''0123456789abcdef''"

definition fmt_x_byte :: "byte \<Rightarrow> string" where
  "fmt_x_byte c = [ldigits ! unat (drop_bit 4 c), ldigits ! unat (c AND 0x0F)]"

definition fmt_x :: "byte list \<Rightarrow> string" where
  "fmt_x bs = concat (map fmt_x_byte bs)"

text \<open>The slice expression \<^verbatim>\<open>b[lo:hi]\<close>.\<close>

definition slice :: "'a list \<Rightarrow> nat \<Rightarrow> nat \<Rightarrow> 'a list" where
  "slice xs lo hi = take (hi - lo) (drop lo xs)"

subsection \<open>Package time\<close>

text \<open>
  An instant, as \<^verbatim>\<open>time.Time\<close> holds it: the seconds since the Unix epoch and the
  nanoseconds within the second (from 0 to 999999999).
\<close>

record instant =
  unixSec :: int
  nsec :: int

text \<open>
  \<^verbatim>\<open>t.UnixNano()\<close>: computed in \<^verbatim>\<open>int64\<close>, so it wraps around outside the
  years 1678 to 2262.
\<close>

definition UnixNano :: "instant \<Rightarrow> int64" where
  "UnixNano t = word_of_int (unixSec t * 1000000000 + nsec t)"

text \<open>Division of two \<^verbatim>\<open>int64\<close> values: Go truncates towards zero.\<close>

definition int64_div :: "int64 \<Rightarrow> int64 \<Rightarrow> int64" where
  "int64_div a b = word_of_int (sint a sdiv sint b)"

text \<open>
  \<^verbatim>\<open>appendInt(b, x, width)\<close> of package time: the decimal digits of \<open>x\<close>, padded
  with zeros on the left up to \<open>width\<close>, after a minus sign when \<open>x\<close> is negative.
\<close>

definition appendInt :: "int \<Rightarrow> nat \<Rightarrow> string" where
  "appendInt x width =
     (let u = fmt_d (nat \<bar>x\<bar>)
      in (if x < 0 then ''-'' else []) @ replicate (width - length u) CHR ''0'' @ u)"

text \<open>
  The date of a day number (days since 1970-01-01) in the proleptic Gregorian calendar,
  which is what \<^verbatim>\<open>t.Date()\<close> returns in UTC: year, month and day. The days are
  counted from 0000-03-01 in cycles of 400 years (146097 days), of 100 years (36524
  days, the fourth one a day longer), of 4 years (1461 days) and in years of 365 days
  (the fourth one a day longer).
\<close>

definition civil_from_days :: "int \<Rightarrow> int \<times> int \<times> int" where
  "civil_from_days z =
     (let z' = z + 719468;
          era = z' div 146097;
          doe = z' mod 146097;
          c = min 3 (doe div 36524);
          r = doe - 36524 * c;
          q = r div 1461;
          r2 = r mod 1461;
          a = min 3 (r2 div 365);
          doy = r2 - 365 * a;
          yoe = 100 * c + 4 * q + a;
          mp = (5 * doy + 2) div 153;
          d = doy - (153 * mp + 2) div 5 + 1;
          m = (if mp < 10 then mp + 3 else mp - 9);
          y = yoe + era * 400 + (if m \<le> 2 then 1 else 0)
      in (y, m, d))"

text \<open>
  \<^verbatim>\<open>t.Format(time.RFC3339)\<close> for a time in UTC, where the layout
  \<^verbatim>\<open>2006-01-02T15:04:05Z07:00\<close> prints the zone as \<open>Z\<close>.
\<close>

definition time_Format_RFC3339 :: "instant \<Rightarrow> string" where
  "time_Format_RFC3339 t =
     (let days = unixSec t div 86400;
          secs = unixSec t mod 86400;
          (year, month, day) = civil_from_days days;
          hour = secs div 3600;
          minute = secs mod 3600 div 60;
          second = secs mod 60
      in appendInt year 4 @ ''-'' @ appendInt month 2 @ ''-'' @ appendInt day 2 @ ''T''
         @ appendInt hour 2 @ '':'' @ appendInt minute 2 @ '':'' @ appendInt second 2
         @ ''Z'')"

text \<open>
  Reading such a string back, to say which Unix second a string encodes: the number a
  string of decimal digits writes, the day number of a date, and the seconds since the
  epoch of a string \<open>YYYY-MM-DDTHH:MM:SSZ\<close>.
\<close>

definition digit_val :: "char \<Rightarrow> nat option" where
  "digit_val c =
     (if c \<in> set decimal_digits then Some (of_char c - 48) else None)"

fun atoi_acc :: "nat \<Rightarrow> string \<Rightarrow> nat option" where
  "atoi_acc n [] = Some n"
| "atoi_acc n (c # cs) =
     (case digit_val c of None \<Rightarrow> None | Some v \<Rightarrow> atoi_acc (10 * n + v) cs)"

definition atoi :: "string \<Rightarrow> nat option" where
  "atoi s = (if s = [] then None else atoi_acc 0 s)"

definition days_from_civil :: "int \<Rightarrow> int \<Rightarrow> int \<Rightarrow> int" where
  "days_from_civil y m d =
     (let y' = y - (if m \<le> 2 then 1 else 0);
          era = y' div 400;
          yoe = y' mod 400;
          mp = (if m > 2 then m - 3 else m + 9);
          doy = (153 * mp + 2) div 5 + d - 1;
          doe = yoe * 365 + yoe div 4 - yoe div 100 + doy
      in era * 146097 + doe - 719468)"

definition unix_of_RFC3339 :: "string \<Rightarrow> int option" where
  "unix_of_RFC3339 s =
     (if length s = 20 \<and> s ! 4 = CHR ''-'' \<and> s ! 7 = CHR ''-'' \<and> s ! 10 = CHR ''T''
         \<and> s ! 13 = CHR '':'' \<and> s ! 16 = CHR '':'' \<and> s ! 19 = CHR ''Z''
      then
        (case (atoi (slice s 0 4), atoi (slice s 5 7), atoi (slice s 8 10),
               atoi (slice s 11 13), atoi (slice s 14 16), atoi (slice s 17 19)) of
           (Some y, Some m, Some d, Some hh, Some mm, Some ss) \<Rightarrow>
             Some (days_from_civil (int y) (int m) (int d) * 86400
                   + int hh * 3600 + int mm * 60 + int ss)
         | _ \<Rightarrow> None)
      else None)"

section \<open>generateUUID\<close>

text \<open>
  The two sources the function reads are its parameters here: what
  \<^verbatim>\<open>rand.Read(b)\<close> did (\<open>Some f\<close> when it filled \<open>b[i]\<close> with \<open>f i\<close>,
  \<open>None\<close> when it returned an error), and the instant \<^verbatim>\<open>time.Now()\<close> gives on
  the fallback path.
\<close>

text \<open>
  The buffer after the first step: the random bytes, or on error
  \<^verbatim>\<open>b[i] = byte(t >> (i * 8))\<close> for \<open>i\<close> from 0 to 15, where \<open>t\<close> is a signed
  64-bit value (an arithmetic shift, which past 63 bits leaves only the sign).
\<close>

definition uuid_fill :: "(nat \<Rightarrow> byte) option \<Rightarrow> instant \<Rightarrow> byte list" where
  "uuid_fill rnd now =
     (case rnd of
        Some f \<Rightarrow> map f [0..<16]
      | None \<Rightarrow>
          (let t = UnixNano now
           in map (\<lambda>i. (ucast (signed_drop_bit (i * 8) t) :: byte)) [0..<16]))"

text \<open>The buffer after the version and the variant are set.\<close>

definition uuid_bytes :: "(nat \<Rightarrow> byte) option \<Rightarrow> instant \<Rightarrow> byte list" where
  "uuid_bytes rnd now =
     (let b = uuid_fill rnd now;
          b = b[6 := (b ! 6 AND 0x0F) OR 0x40];
          b = b[8 := (b ! 8 AND 0x3F) OR 0x80]
      in b)"

definition generateUUID :: "(nat \<Rightarrow> byte) option \<Rightarrow> instant \<Rightarrow> string" where
  "generateUUID rnd now =
     (let b = uuid_bytes rnd now
      in fmt_x (slice b 0 4) @ ''-'' @ fmt_x (slice b 4 6) @ ''-'' @ fmt_x (slice b 6 8)
         @ ''-'' @ fmt_x (slice b 8 10) @ ''-'' @ fmt_x (slice b 10 16))"

text \<open>The canonical textual layout of a UUID: 8-4-4-4-12 lower-case hex digits.\<close>

definition is_hex :: "char \<Rightarrow> bool" where
  "is_hex c = (c \<in> set ldigits)"

definition canonical_uuid :: "string \<Rightarrow> bool" where
  "canonical_uuid s =
     (length s = 36 \<and>
      list_all is_hex (slice s 0 8) \<and> s ! 8 = CHR ''-'' \<and>
      list_all is_hex (slice s 9 13) \<and> s ! 13 = CHR ''-'' \<and>
      list_all is_hex (slice s 14 18) \<and> s ! 18 = CHR ''-'' \<and>
      list_all is_hex (slice s 19 23) \<and> s ! 23 = CHR ''-'' \<and>
      list_all is_hex (slice s 24 36))"

section \<open>The request, the response writer and the header collection\<close>

text \<open>
  \<^verbatim>\<open>http.Header\<close> is a map from a header name to the list of its values. A name
  can be in the map with no value at all.
\<close>

type_synonym header = "string \<rightharpoonup> string list"

text \<open>
  \<^verbatim>\<open>textproto.CanonicalMIMEHeaderKey\<close>: a key made of token bytes only gets its
  first letter and every letter after a hyphen in upper case and the others in lower
  case; any other key is returned as it is.
\<close>

definition validHeaderFieldByte :: "char \<Rightarrow> bool" where
  "validHeaderFieldByte c =
     (c \<in> set ''!#$%&*+-.^_`|~0123456789abcdefghijklmnopqrstuvwxyzABCDEFGHIJKLMNOPQRSTUVWXYZ''
      \<or> c = CHR 0x27)"

definition toUpper :: "char \<Rightarrow> char" where
  "toUpper c =
     (if (97 :: nat) \<le> of_char c \<and> of_char c \<le> (122 :: nat)
      then char_of (of_char c - (32 :: nat)) else c)"

definition toLower :: "char \<Rightarrow> char" where
  "toLower c =
     (if (65 :: nat) \<le> of_char c \<and> of_char c \<le> (90 :: nat)
      then char_of (of_char c + (32 :: nat)) else c)"

fun canonical_case :: "bool \<Rightarrow> string \<Rightarrow> string" where
  "canonical_case upper [] = []"
| "canonical_case upper (c # cs) =
     (if upper then toUpper c else toLower c) # canonical_case (c = CHR ''-'') cs"

definition CanonicalMIMEHeaderKey :: "string \<Rightarrow> string" where
  "CanonicalMIMEHeaderKey s =
     (if list_all validHeaderFieldByte s then canonical_case True s else s)"

text \<open>
  \<^verbatim>\<open>h.Get(key)\<close>: the first value under the canonical key, or the empty string
  when the key is absent or has no value. \<^verbatim>\<open>h.Set(key, value)\<close>: the canonical
  key gets the one value.
\<close>

definition header_Get :: "header \<Rightarrow> string \<Rightarrow> string" where
  "header_Get h key =
     (case h (CanonicalMIMEHeaderKey key) of
        None \<Rightarrow> []
      | Some [] \<Rightarrow> []
      | Some (v # _) \<Rightarrow> v)"

definition header_Set :: "header \<Rightarrow> string \<Rightarrow> string \<Rightarrow> header" where
  "header_Set h key v = h(CanonicalMIMEHeaderKey key \<mapsto> [v])"

text \<open>
  The fields of \<^verbatim>\<open>http.Request\<close> that the handler reads or writes; every other
  field is in the record's extension. The body is the bytes its reader will give. The
  header map is the one the server made for the request, so it is never the nil map
  (on which \<^verbatim>\<open>Set\<close> would panic).
\<close>

record request =
  Method :: string
  URL_Path :: string
  URL_RawQuery :: string
  Host :: string
  Header :: header
  RemoteAddr :: string
  Proto :: string
  Body :: string
  ContentLength :: int
  TransferEncoding :: "string list"
  RequestURI :: string

text \<open>
  The response writer: its header map, the status once it is written, and the bytes
  written to the body.
\<close>

record responseWriter =
  rw_Header :: header
  rw_status :: "nat option"
  rw_body :: string

text \<open>\<^verbatim>\<open>http.Error(w, error, code)\<close>: a plain-text reply with the message on a line.\<close>

definition http_Error :: "responseWriter \<Rightarrow> string \<Rightarrow> nat \<Rightarrow> responseWriter" where
  "http_Error w msg code =
     (let h = (rw_Header w)(''Content-Length'' := None);
          h = header_Set h ''Content-Type'' ''text/plain; charset=utf-8'';
          h = header_Set h ''X-Content-Type-Options'' ''nosniff''
      in w\<lparr>rw_Header := h, rw_status := Some code, rw_body := rw_body w @ msg @ [CHR 0x0A]\<rparr>)"

definition StatusInternalServerError :: nat where
  "StatusInternalServerError = 500"

definition MethodPost :: string where
  "MethodPost = ''POST''"

section \<open>The invocation event\<close>

text \<open>
  The values the event is built of (\<^verbatim>\<open>map[string]interface{}\<close> with strings, a
  64-bit integer, a boolean, a string slice and the header map inside). A map literal
  is the list of its entries; its keys are distinct.
\<close>

datatype gvalue =
    VString string
  | VInt64 int64
  | VBool bool
  | VStrings "string list"
  | VStringMap "string \<rightharpoonup> string"
  | VMap "(string \<times> gvalue) list"

fun field :: "gvalue \<Rightarrow> string \<Rightarrow> gvalue option" where
  "field (VMap kvs) k = map_of kvs k"
| "field _ k = None"

text \<open>The value at the end of a path of keys, as in \<open>requestContext.http.method\<close>.\<close>

fun lookup :: "gvalue \<Rightarrow> string list \<Rightarrow> gvalue option" where
  "lookup v [] = Some v"
| "lookup v (k # ks) = (case field v k of None \<Rightarrow> None | Some v' \<Rightarrow> lookup v' ks)"

text \<open>
  What the handler takes from outside the request: the outcome of
  \<^verbatim>\<open>rand.Read\<close> and the clock reading of the fallback in
  \<^verbatim>\<open>generateUUID\<close>, the clock reading of \<^verbatim>\<open>time.Now()\<close> in the handler,
  \<^verbatim>\<open>net.SplitHostPort\<close> (\<open>None\<close> when it returns an error), and
  \<^verbatim>\<open>json.Marshal\<close> (\<open>Inl\<close> the error's message, \<open>Inr\<close> the bytes).
\<close>

record env =
  rand_Read :: "(nat \<Rightarrow> byte) option"
  uuid_time_Now :: instant
  time_Now :: instant
  net_SplitHostPort :: "string \<Rightarrow> (string \<times> string) option"
  json_Marshal :: "gvalue \<Rightarrow> string + string"

section \<open>ServeHTTP\<close>

definition headersMap :: "'a request_scheme \<Rightarrow> (string \<rightharpoonup> string)" where
  "headersMap req =
     (\<lambda>h. case Header req h of
             None \<Rightarrow> None
           | Some values \<Rightarrow> Some (strings_Join values '',''))"

definition clientIP :: "env \<Rightarrow> 'a request_scheme \<Rightarrow> string" where
  "clientIP e req =
     (case net_SplitHostPort e (RemoteAddr req) of
        Some (ip, _) \<Rightarrow> ip
      | None \<Rightarrow> RemoteAddr req)"

definition identitySrc :: "'a request_scheme \<Rightarrow> string list" where
  "identitySrc req =
     (let sessionID = header_Get (Header req) ''x-session-id''
      in if sessionID \<noteq> [] then [] @ [sessionID] else [])"

definition domainName :: "'a request_scheme \<Rightarrow> string" where
  "domainName req =
     (let origHost = Host req;
          colonIdx = strings_Index origHost CHR '':''
      in if colonIdx \<noteq> - 1 then take (nat colonIdx) origHost else origHost)"

definition domainPrefix :: "'a request_scheme \<Rightarrow> string" where
  "domainPrefix req =
     (let parts = strings_Split (domainName req) CHR ''.''
      in if length parts > 1 then parts ! 0 else domainName req)"

text \<open>The event, built from the request as it arrived.\<close>

definition event :: "env \<Rightarrow> 'a request_scheme \<Rightarrow> gvalue" where
  "event e req =
     (let origMethod = Method req;
          origPath = URL_Path req;
          origQuery = URL_RawQuery req;
          userAgent = header_Get (Header req) ''User-Agent'';
          requestID = generateUUID (rand_Read e) (uuid_time_Now e);
          now = time_Now e;
          timeStr = time_Format_RFC3339 now;
          timeEpoch = int64_div (UnixNano now) 1000000
      in VMap
          [(''version'', VString ''2.0''),
           (''type'', VString ''REQUEST''),
           (''routeKey'', VString (origMethod @ '' '' @ origPath)),
           (''rawPath'', VString origPath),
           (''rawQueryString'', VString origQuery),
           (''headers'', VStringMap (headersMap req)),
           (''requestContext'', VMap
              [(''accountId'', VString ''local''),
               (''apiId'', VString ''local''),
               (''domainName'', VString (domainName req)),
               (''domainPrefix'', VString (domainPrefix req)),
               (''http'', VMap
                  [(''method'', VString origMethod),
                   (''path'', VString origPath),
                   (''protocol'', VString (Proto req)),
                   (''sourceIp'', VString (clientIP e req)),
                   (''userAgent'', VString userAgent)]),
               (''requestId'', VString requestID),
               (''routeKey'', VString (origMethod @ '' '' @ origPath)),
               (''stage'', VString ''local''),
               (''time'', VString timeStr),
               (''timeEpoch'', VInt64 timeEpoch)]),
           (''body'', VString []),
           (''isBase64Encoded'', VBool False),
           (''identitySource'', VStrings (identitySrc req))])"

text \<open>
  How a call of the handler ends: \<open>Failed w req\<close> when it returned after the error
  reply, with the writer and the request as it left them; \<open>Forwarded w req\<close> when its
  last action was \<^verbatim>\<open>rt.next.ServeHTTP(w, req)\<close>.
\<close>

datatype 'a outcome =
    Failed responseWriter "'a request_scheme"
  | Forwarded responseWriter "'a request_scheme"

definition ServeHTTP :: "env \<Rightarrow> responseWriter \<Rightarrow> 'a request_scheme \<Rightarrow> 'a outcome" where
  "ServeHTTP e rw req =
     (case json_Marshal e (event e req) of
        Inl err \<Rightarrow>
          Failed (http_Error rw (''JSON marshal error: '' @ err) StatusInternalServerError) req
      | Inr jsonData \<Rightarrow>
          (let req = req\<lparr>Body := jsonData\<rparr>;
               req = req\<lparr>ContentLength := int (length jsonData)\<rparr>;
               req = req\<lparr>Header := header_Set (Header req) ''Content-Type'' ''application/json''\<rparr>;
               req = req\<lparr>Header := header_Set (Header req) ''Content-Length''
                                        (fmt_d (length jsonData))\<rparr>;
               req = req\<lparr>Method := MethodPost\<rparr>;
               req = req\<lparr>TransferEncoding := []\<rparr>;
               req = req\<lparr>RequestURI := ''/2015-03-31/functions/function/invocations''\<rparr>
           in Forwarded rw req))"

section \<open>Example inputs\<close>

text \<open>
  A request with a port in its host, a repeated header and a session header with two
  values; an environment where serialization succeeds, and one where it fails.
\<close>

definition example_request :: request where
  "example_request =
     \<lparr>Method = ''GET'', URL_Path = ''/items/7'', URL_RawQuery = ''a=1'',
      Host = ''api.example.com:8443'',
      Header = [''X-Session-Id'' \<mapsto> [''sess-42'', ''sess-43''],
                ''User-Agent'' \<mapsto> [''curl/8.0''],
                ''Accept'' \<mapsto> [''a'', ''b'', ''c'']],
      RemoteAddr = ''10.0.0.1:5555'', Proto = ''HTTP/1.1'', Body = ''hello'',
      ContentLength = 5, TransferEncoding = [''chunked''],
      RequestURI = ''/items/7?a=1''\<rparr>"

definition example_writer :: responseWriter where
  "example_writer = \<lparr>rw_Header = Map.empty, rw_status = None, rw_body = []\<rparr>"

definition example_env :: env where
  "example_env =
     \<lparr>rand_Read = Some (\<lambda>i. of_nat (17 * i)),
      uuid_time_Now = \<lparr>unixSec = 1700000000, nsec = 1\<rparr>,
      time_Now = \<lparr>unixSec = 1700000000, nsec = 123456789\<rparr>,
      net_SplitHostPort =
        (\<lambda>a. if a = ''10.0.0.1:5555'' then Some (''10.0.0.1'', ''5555'') else None),
      json_Marshal = (\<lambda>v. Inr ''{}'')\<rparr>"

definition example_env_failing :: env where
  "example_env_failing =
     example_env\<lparr>json_Marshal := (\<lambda>v. Inl ''json: unsupported value'')\<rparr>"

section \<open>The request identifier\<close>

lemma length_fmt_x: "length (fmt_x bs) = 2 * length bs"
  by (induction bs) (simp_all add: fmt_x_def fmt_x_byte_def)

lemma nibble_hex: "n < 16 \<Longrightarrow> is_hex (ldigits ! n)"
  unfolding is_hex_def by (rule nth_mem) (simp add: ldigits_def)

lemma unat_drop_bit_byte: "unat (drop_bit k (c :: byte)) = unat c div 2 ^ k"
  unfolding unat_drop_bit_eq by (rule drop_bit_eq_div)

lemma unat_hi_nibble: "unat (drop_bit 4 (c :: byte)) < 16"
proof -
  have "unat c < 256"
    using unsigned_less [of c, where ?'a = nat] by simp
  then show ?thesis
    by (simp only: unat_drop_bit_byte) simp
qed

lemma unat_lo_nibble: "unat ((c :: byte) AND 0x0F) < 16"
  using word_and_le1 [of c "0x0F"] by (simp add: word_le_nat_alt)

lemma hex_fmt_x_byte: "list_all is_hex (fmt_x_byte c)"
  by (simp add: fmt_x_byte_def nibble_hex unat_hi_nibble unat_lo_nibble)

lemma hex_fmt_x: "list_all is_hex (fmt_x bs)"
  by (induction bs) (simp_all add: fmt_x_def hex_fmt_x_byte)

lemma length_uuid_fill: "length (uuid_fill rnd now) = 16"
  by (simp add: uuid_fill_def Let_def split: option.split)

lemma length_uuid_bytes: "length (uuid_bytes rnd now) = 16"
  by (simp add: uuid_bytes_def Let_def length_uuid_fill)

lemma version_nibble: "drop_bit 4 (((x :: byte) AND 0x0F) OR 0x40) = 4"
  by (rule bit_word_eqI) (auto simp add: bit_simps)

lemma variant_bits: "drop_bit 6 (((x :: byte) AND 0x3F) OR 0x80) = 2"
  by (rule bit_word_eqI) (auto simp add: bit_simps)

lemma uuid_bytes_6: "uuid_bytes rnd now ! 6 = (uuid_fill rnd now ! 6 AND 0x0F) OR 0x40"
  by (simp add: uuid_bytes_def Let_def length_uuid_fill)

lemma uuid_bytes_8: "uuid_bytes rnd now ! 8 = (uuid_fill rnd now ! 8 AND 0x3F) OR 0x80"
  by (simp add: uuid_bytes_def Let_def length_uuid_fill)

lemma variant_digit:
  fixes y :: byte
  assumes "drop_bit 6 y = 2"
  shows "ldigits ! unat (drop_bit 4 y) \<in> set ''89ab''"
proof -
  have "unat (drop_bit 6 y) = 2"
    using assms by simp
  then have "unat y div 64 = 2"
    by (simp only: unat_drop_bit_byte) simp
  then have "unat y div 16 \<in> {8, 9, 10, 11}"
    by auto
  then show ?thesis
    by (simp only: unat_drop_bit_byte) (auto simp add: ldigits_def)
qed

lemma length_slice: "hi \<le> length xs \<Longrightarrow> length (slice xs lo hi) = hi - lo"
  by (simp add: slice_def)

lemma slice_nth0: "lo < hi \<Longrightarrow> hi \<le> length xs \<Longrightarrow> slice xs lo hi ! 0 = xs ! lo"
  by (simp add: slice_def)

lemma fmt_x_nth0: "bs \<noteq> [] \<Longrightarrow> fmt_x bs ! 0 = ldigits ! unat (drop_bit 4 (bs ! 0))"
  by (cases bs) (simp_all add: fmt_x_def fmt_x_byte_def)

lemma canonical_uuid_groups:
  assumes "length a = 8" "length b = 4" "length c = 4" "length d = 4" "length e = 12"
    and "list_all is_hex a" "list_all is_hex b" "list_all is_hex c" "list_all is_hex d"
      "list_all is_hex e"
  shows "canonical_uuid (a @ ''-'' @ b @ ''-'' @ c @ ''-'' @ d @ ''-'' @ e)"
  using assms by (simp add: canonical_uuid_def slice_def nth_append)

lemma nth_uuid_groups:
  assumes "length a = 8" "length b = 4" "length c = 4" "length d = 4" "length e = 12"
  shows "(a @ ''-'' @ b @ ''-'' @ c @ ''-'' @ d @ ''-'' @ e) ! 14 = c ! 0"
    and "(a @ ''-'' @ b @ ''-'' @ c @ ''-'' @ d @ ''-'' @ e) ! 19 = d ! 0"
  using assms by (simp_all add: nth_append)

text \<open>
  Claim C6. Whatever \<^verbatim>\<open>rand.Read\<close> did (it filled the buffer, or it failed and the
  buffer was derived from the clock), the string \<^verbatim>\<open>generateUUID\<close> returns has 36
  characters in the layout 8-4-4-4-12 of lower-case hex digits separated by hyphens;
  the buffer has 16 bytes, the high nibble of byte 6 is 4 and the top two bits of byte 8
  are 10; so the digit at position 14 is 4 and the one at position 19 is 8, 9, a or b.
\<close>

theorem generateUUID_canonical:
  "canonical_uuid (generateUUID rnd now) \<and>
   length (uuid_bytes rnd now) = 16 \<and>
   drop_bit 4 (uuid_bytes rnd now ! 6) = 4 \<and>
   drop_bit 6 (uuid_bytes rnd now ! 8) = 2 \<and>
   generateUUID rnd now ! 14 = CHR ''4'' \<and>
   generateUUID rnd now ! 19 \<in> set ''89ab''"
proof -
  define b where "b = uuid_bytes rnd now"
  have len: "length b = 16"
    by (simp add: b_def length_uuid_bytes)
  have v: "drop_bit 4 (b ! 6) = 4"
    by (simp only: b_def uuid_bytes_6 version_nibble)
  have w: "drop_bit 6 (b ! 8) = 2"
    by (simp only: b_def uuid_bytes_8 variant_bits)
  have s: "generateUUID rnd now =
      fmt_x (slice b 0 4) @ ''-'' @ fmt_x (slice b 4 6) @ ''-'' @ fmt_x (slice b 6 8)
       @ ''-'' @ fmt_x (slice b 8 10) @ ''-'' @ fmt_x (slice b 10 16)"
    by (simp add: generateUUID_def Let_def b_def)
  have l: "length (fmt_x (slice b 0 4)) = 8" "length (fmt_x (slice b 4 6)) = 4"
    "length (fmt_x (slice b 6 8)) = 4" "length (fmt_x (slice b 8 10)) = 4"
    "length (fmt_x (slice b 10 16)) = 12"
    using len by (simp_all add: length_fmt_x length_slice)
  have c: "canonical_uuid (generateUUID rnd now)"
    unfolding s by (rule canonical_uuid_groups) (simp_all only: l hex_fmt_x)
  have ne: "slice b 6 8 \<noteq> []" "slice b 8 10 \<noteq> []"
    using len by (simp_all add: slice_def)
  have "generateUUID rnd now ! 14 = fmt_x (slice b 6 8) ! 0"
    unfolding s by (rule nth_uuid_groups) (simp_all only: l)
  also have "\<dots> = ldigits ! unat (drop_bit 4 (b ! 6))"
    using len by (simp add: fmt_x_nth0 [OF ne(1)] slice_nth0)
  also have "\<dots> = CHR ''4''"
    by (simp add: v ldigits_def)
  finally have d14: "generateUUID rnd now ! 14 = CHR ''4''" .
  have "generateUUID rnd now ! 19 = fmt_x (slice b 8 10) ! 0"
    unfolding s by (rule nth_uuid_groups) (simp_all only: l)
  also have "\<dots> = ldigits ! unat (drop_bit 4 (b ! 8))"
    using len by (simp add: fmt_x_nth0 [OF ne(2)] slice_nth0)
  finally have d19: "generateUUID rnd now ! 19 \<in> set ''89ab''"
    using variant_digit [OF w] by simp
  from c len v w d14 d19 show ?thesis
    unfolding b_def by blast
qed

text \<open>
  The two paths on concrete inputs: a random source that gives zeros, and the fallback
  at an instant whose nanosecond count is \<open>0x17979cfe3d85cd15\<close>.
\<close>

lemma generateUUID_random_example:
  "generateUUID (Some (\<lambda>i. 0)) \<lparr>unixSec = 0, nsec = 0\<rparr> =
     ''00000000-0000-4000-8000-000000000000''"
  by (simp add: generateUUID_def uuid_bytes_def uuid_fill_def slice_def fmt_x_def
      fmt_x_byte_def ldigits_def upt_rec [of _ 16])

lemma generateUUID_fallback_example:
  "generateUUID None \<lparr>unixSec = 1700000000, nsec = 123456789\<rparr> =
     ''15cd853d-fe9c-4717-8000-000000000000''"
  by code_simp

section \<open>The domain name and its prefix\<close>

lemma strings_Index_takeWhile:
  "strings_Index s c =
     (if c \<in> set s then int (length (takeWhile (\<lambda>x. x \<noteq> c) s)) else - 1)"
  by (induction s) (auto simp add: Let_def)

lemma strings_Split_nonempty: "strings_Split s c \<noteq> []"
  by (induction s) (auto split: list.split)

lemma hd_strings_Split: "hd (strings_Split s c) = takeWhile (\<lambda>x. x \<noteq> c) s"
  by (induction s) (auto split: list.split simp add: strings_Split_nonempty)

lemma length_strings_Split:
  "length (strings_Split s c) = Suc (length (filter (\<lambda>x. x = c) s))"
  by (induction s) (auto split: list.split simp add: strings_Split_nonempty)

lemma strings_Split_many: "Suc 0 < length (strings_Split s c) \<longleftrightarrow> c \<in> set s"
  by (simp add: length_strings_Split filter_empty_conv)

lemma takeWhile_absent: "c \<notin> set s \<Longrightarrow> takeWhile (\<lambda>x. x \<noteq> c) s = s"
  by (auto simp add: takeWhile_eq_all_conv)

lemma domainName_eq: "domainName req = takeWhile (\<lambda>c. c \<noteq> CHR '':'') (Host req)"
proof (cases "CHR '':'' \<in> set (Host req)")
  case True
  then show ?thesis
    by (simp add: domainName_def Let_def strings_Index_takeWhile takeWhile_eq_take [symmetric])
next
  case False
  then show ?thesis
    by (simp add: domainName_def Let_def strings_Index_takeWhile takeWhile_absent)
qed

lemma domainPrefix_eq:
  "domainPrefix req =
     (if CHR ''.'' \<in> set (domainName req)
      then takeWhile (\<lambda>c. c \<noteq> CHR ''.'') (domainName req) else domainName req)"
proof -
  have "strings_Split (domainName req) CHR ''.'' ! 0 =
      takeWhile (\<lambda>c. c \<noteq> CHR ''.'') (domainName req)"
    using hd_strings_Split [of "domainName req" "CHR ''.''"]
    by (simp add: hd_conv_nth strings_Split_nonempty)
  then show ?thesis
    by (simp add: domainPrefix_def Let_def strings_Split_many)
qed

text \<open>
  Claim C4. For every host, \<open>domainName\<close> is the host up to its first colon (all of it
  when it has none), and \<open>domainPrefix\<close> is \<open>domainName\<close> up to its first dot when it
  has one and all of \<open>domainName\<close> otherwise; these are the values under
  \<open>requestContext\<close> in the event.
\<close>

theorem domain_split:
  "domainName req = takeWhile (\<lambda>c. c \<noteq> CHR '':'') (Host req) \<and>
   domainPrefix req =
     (if CHR ''.'' \<in> set (domainName req)
      then takeWhile (\<lambda>c. c \<noteq> CHR ''.'') (domainName req) else domainName req) \<and>
   lookup (event e req) [''requestContext'', ''domainName''] = Some (VString (domainName req)) \<and>
   lookup (event e req) [''requestContext'', ''domainPrefix''] =
     Some (VString (domainPrefix req))"
  using domainName_eq [of req] domainPrefix_eq [of req] by (simp add: event_def Let_def)

text \<open>The two hosts the claim names.\<close>

theorem domain_split_examples:
  "domainName (example_request\<lparr>Host := ''api.example.com:8443''\<rparr>) = ''api.example.com'' \<and>
   domainPrefix (example_request\<lparr>Host := ''api.example.com:8443''\<rparr>) = ''api'' \<and>
   domainName (example_request\<lparr>Host := ''localhost''\<rparr>) = ''localhost'' \<and>
   domainPrefix (example_request\<lparr>Host := ''localhost''\<rparr>) = ''localhost''"
  using domain_split [of "example_request\<lparr>Host := ''api.example.com:8443''\<rparr>" example_env]
    domain_split [of "example_request\<lparr>Host := ''localhost''\<rparr>" example_env]
  by simp

section \<open>The rewritten request\<close>

lemma canonical_keys:
  "CanonicalMIMEHeaderKey ''Content-Type'' = ''Content-Type''"
  "CanonicalMIMEHeaderKey ''Content-Length'' = ''Content-Length''"
  "CanonicalMIMEHeaderKey ''X-Content-Type-Options'' = ''X-Content-Type-Options''"
  "CanonicalMIMEHeaderKey ''User-Agent'' = ''User-Agent''"
  "CanonicalMIMEHeaderKey ''x-session-id'' = ''X-Session-Id''"
  by code_simp+

lemma digit_val_digit: "n < 10 \<Longrightarrow> digit_val (decimal_digits ! n) = Some n"
proof -
  assume "n < 10"
  then have "n \<in> {0, 1, 2, 3, 4, 5, 6, 7, 8, 9}"
    by auto
  then show ?thesis
    by (auto simp add: digit_val_def decimal_digits_def)
qed

lemma atoi_acc_append:
  "atoi_acc n (s @ t) = (case atoi_acc n s of None \<Rightarrow> None | Some m \<Rightarrow> atoi_acc m t)"
  by (induction s arbitrary: n) (auto split: option.split)

lemma fmt_d_nonempty: "fmt_d n \<noteq> []"
  by (subst fmt_d.simps) simp

lemma atoi_acc_fmt_d: "atoi_acc 0 (fmt_d n) = Some n"
proof (induction n rule: fmt_d.induct)
  case (1 n)
  show ?case
  proof (cases "n < 10")
    case True
    then show ?thesis
      by (subst fmt_d.simps) (simp add: digit_val_digit)
  next
    case False
    with 1 have "atoi_acc 0 (fmt_d (n div 10)) = Some (n div 10)"
      by simp
    with False show ?thesis
      by (subst fmt_d.simps) (simp add: atoi_acc_append digit_val_digit)
  qed
qed

lemma atoi_fmt_d: "atoi (fmt_d n) = Some n"
  by (simp add: atoi_def fmt_d_nonempty atoi_acc_fmt_d)

lemma ServeHTTP_success:
  assumes "json_Marshal e (event e req) = Inr jsonData"
  shows "ServeHTTP e rw req =
     Forwarded rw
      (req\<lparr>Body := jsonData,
           ContentLength := int (length jsonData),
           Header := (Header req)(''Content-Type'' \<mapsto> [''application/json''],
                                  ''Content-Length'' \<mapsto> [fmt_d (length jsonData)]),
           Method := ''POST'',
           TransferEncoding := [],
           RequestURI := ''/2015-03-31/functions/function/invocations''\<rparr>)"
  using assms
  by (simp add: ServeHTTP_def Let_def header_Set_def canonical_keys MethodPost_def)

lemma ServeHTTP_failure:
  assumes "json_Marshal e (event e req) = Inl err"
  shows "ServeHTTP e rw req = Failed (http_Error rw (''JSON marshal error: '' @ err) 500) req"
  using assms by (simp add: ServeHTTP_def StatusInternalServerError_def)

text \<open>
  Claim C1. When serialization succeeds with the bytes \<open>jsonData\<close>, the handler's last
  action is the call of the next handler with a request whose method is \<open>POST\<close>, whose
  request target is \<open>/2015-03-31/functions/function/invocations\<close>, whose Content-Type
  header is \<open>application/json\<close>, whose Content-Length header is the decimal writing of
  the number of bytes of \<open>jsonData\<close> (reading it back gives that number) and whose
  \<open>ContentLength\<close> field is that number, with no transfer encoding, and whose body is
  \<open>jsonData\<close>, the serialization of the event.
\<close>

theorem ServeHTTP_rewritten_request:
  assumes "json_Marshal e (event e req) = Inr jsonData"
  shows "\<exists>req'. ServeHTTP e rw req = Forwarded rw req' \<and>
     Method req' = ''POST'' \<and>
     RequestURI req' = ''/2015-03-31/functions/function/invocations'' \<and>
     Header req' ''Content-Type'' = Some [''application/json''] \<and>
     Header req' ''Content-Length'' = Some [fmt_d (length jsonData)] \<and>
     atoi (fmt_d (length jsonData)) = Some (length jsonData) \<and>
     ContentLength req' = int (length jsonData) \<and>
     TransferEncoding req' = [] \<and>
     Body req' = jsonData"
  by (simp add: ServeHTTP_success [OF assms] atoi_fmt_d)

theorem ServeHTTP_rewritten_request_witness:
  "json_Marshal example_env (event example_env example_request) = Inr ''{}'' \<and>
   (\<exists>req'. ServeHTTP example_env example_writer example_request = Forwarded example_writer req' \<and>
     Method req' = ''POST'' \<and>
     RequestURI req' = ''/2015-03-31/functions/function/invocations'' \<and>
     Header req' ''Content-Type'' = Some [''application/json''] \<and>
     Header req' ''Content-Length'' = Some [''2''] \<and>
     ContentLength req' = 2 \<and>
     TransferEncoding req' = [] \<and>
     Body req' = ''{}'')"
proof -
  have m: "json_Marshal example_env (event example_env example_request) = Inr ''{}''"
    by (simp add: example_env_def)
  have d: "fmt_d (Suc (Suc 0)) = ''2''"
    by (subst fmt_d.simps) (simp add: decimal_digits_def)
  show ?thesis
    using ServeHTTP_rewritten_request [OF m, of example_writer] m by (auto simp add: d)
qed

text \<open>
  Claim C2. The top-level \<open>routeKey\<close> and \<open>requestContext.routeKey\<close> of the event are
  the method and the path of the request as it arrived, with one space between them, and
  \<open>requestContext.http.method\<close> and \<open>requestContext.http.path\<close> are that method and
  that path. The event is built before the request is changed: when its serialization
  succeeds, the body handed on is the serialization of this event, while the method of
  the request handed on is \<open>POST\<close>.
\<close>

theorem routeKey_original:
  "lookup (event e req) [''routeKey''] = Some (VString (Method req @ '' '' @ URL_Path req)) \<and>
   lookup (event e req) [''requestContext'', ''routeKey''] =
     Some (VString (Method req @ '' '' @ URL_Path req)) \<and>
   lookup (event e req) [''requestContext'', ''http'', ''method''] = Some (VString (Method req)) \<and>
   lookup (event e req) [''requestContext'', ''http'', ''path''] = Some (VString (URL_Path req)) \<and>
   (\<forall>d. json_Marshal e (event e req) = Inr d \<longrightarrow>
      (\<exists>req'. ServeHTTP e rw req = Forwarded rw req' \<and> Body req' = d \<and> Method req' = ''POST''))"
  by (simp add: ServeHTTP_success) (simp add: event_def Let_def)

theorem routeKey_original_witness:
  "lookup (event example_env example_request) [''routeKey''] = Some (VString ''GET /items/7'') \<and>
   lookup (event example_env example_request) [''requestContext'', ''routeKey''] =
     Some (VString ''GET /items/7'') \<and>
   lookup (event example_env example_request) [''requestContext'', ''http'', ''method''] =
     Some (VString ''GET'') \<and>
   lookup (event example_env example_request) [''requestContext'', ''http'', ''path''] =
     Some (VString ''/items/7'') \<and>
   json_Marshal example_env (event example_env example_request) = Inr ''{}'' \<and>
   (\<exists>req'. ServeHTTP example_env example_writer example_request = Forwarded example_writer req' \<and>
      Body req' = ''{}'' \<and> Method req' = ''POST'')"
proof -
  have m: "json_Marshal example_env (event example_env example_request) = Inr ''{}''"
    by (simp add: example_env_def)
  show ?thesis
    using routeKey_original [of example_env example_request example_writer] m
    by (simp add: example_request_def)
qed

section \<open>Failure of the serialization\<close>

lemma http_Error_reply:
  "rw_status (http_Error w msg code) = Some code \<and>
   rw_Header (http_Error w msg code) ''Content-Type'' = Some [''text/plain; charset=utf-8''] \<and>
   rw_body (http_Error w msg code) = rw_body w @ msg @ [CHR 0x0A]"
  by (simp add: http_Error_def Let_def header_Set_def canonical_keys)

text \<open>
  Claim C7. When serialization fails with the error \<open>err\<close>, the handler writes a reply
  with status 500, content type \<open>text/plain\<close> and the message
  \<open>JSON marshal error: err\<close> on a line, and returns with the request as it arrived,
  the next handler not called. When serialization succeeds, the handler writes
  nothing and its last action is the call of the next handler. So the handler ends with
  the error reply exactly when serialization fails.
\<close>

theorem ServeHTTP_failure_iff:
  "(\<forall>err. json_Marshal e (event e req) = Inl err \<longrightarrow>
      ServeHTTP e rw req = Failed (http_Error rw (''JSON marshal error: '' @ err) 500) req \<and>
      rw_status (http_Error rw (''JSON marshal error: '' @ err) 500) = Some 500 \<and>
      rw_Header (http_Error rw (''JSON marshal error: '' @ err) 500) ''Content-Type'' =
        Some [''text/plain; charset=utf-8''] \<and>
      rw_body (http_Error rw (''JSON marshal error: '' @ err) 500) =
        rw_body rw @ ''JSON marshal error: '' @ err @ [CHR 0x0A]) \<and>
   (\<forall>d. json_Marshal e (event e req) = Inr d \<longrightarrow>
      (\<exists>req'. ServeHTTP e rw req = Forwarded rw req')) \<and>
   ((\<exists>w r. ServeHTTP e rw req = Failed w r) \<longleftrightarrow>
    (\<exists>err. json_Marshal e (event e req) = Inl err))"
proof -
  have "(\<exists>w r. ServeHTTP e rw req = Failed w r) \<longleftrightarrow>
      (\<exists>err. json_Marshal e (event e req) = Inl err)"
    by (cases "json_Marshal e (event e req)") (simp_all add: ServeHTTP_failure ServeHTTP_success)
  then show ?thesis
    by (simp add: ServeHTTP_failure ServeHTTP_success http_Error_reply)
qed

theorem ServeHTTP_failure_iff_witness:
  "json_Marshal example_env_failing (event example_env_failing example_request) =
     Inl ''json: unsupported value'' \<and>
   ServeHTTP example_env_failing example_writer example_request =
     Failed
      \<lparr>rw_Header = [''Content-Type'' \<mapsto> [''text/plain; charset=utf-8''],
                    ''X-Content-Type-Options'' \<mapsto> [''nosniff'']],
       rw_status = Some 500,
       rw_body = ''JSON marshal error: json: unsupported value'' @ [CHR 0x0A]\<rparr>
      example_request \<and>
   json_Marshal example_env (event example_env example_request) = Inr ''{}'' \<and>
   (\<exists>req'. ServeHTTP example_env example_writer example_request = Forwarded example_writer req')"
proof -
  have f: "json_Marshal example_env_failing (event example_env_failing example_request) =
      Inl ''json: unsupported value''"
    by (simp add: example_env_failing_def)
  have m: "json_Marshal example_env (event example_env example_request) = Inr ''{}''"
    by (simp add: example_env_def)
  have w: "http_Error example_writer ''JSON marshal error: json: unsupported value'' 500 =
      \<lparr>rw_Header = [''Content-Type'' \<mapsto> [''text/plain; charset=utf-8''],
                    ''X-Content-Type-Options'' \<mapsto> [''nosniff'']],
       rw_status = Some 500,
       rw_body = ''JSON marshal error: json: unsupported value'' @ [CHR 0x0A]\<rparr>"
    by (simp add: http_Error_def Let_def header_Set_def canonical_keys example_writer_def)
  show ?thesis
    using ServeHTTP_failure_iff [of example_env_failing example_request example_writer]
      ServeHTTP_failure_iff [of example_env example_request example_writer] f m w
    by simp
qed

section \<open>What the handler leaves as it was\<close>

text \<open>
  Claim C9. When the handler ends with the call of the next handler, the writer it
  passes on is the one it got, and the request it passes on differs from the one that
  arrived in nothing but \<open>Body\<close>, \<open>ContentLength\<close>, \<open>Method\<close>, \<open>TransferEncoding\<close>,
  \<open>RequestURI\<close> and the headers \<open>Content-Type\<close> and \<open>Content-Length\<close>:
  \<open>URL.Path\<close>, \<open>URL.RawQuery\<close>, \<open>Host\<close>, \<open>RemoteAddr\<close>, \<open>Proto\<close>, all the fields
  the handler never names and all other headers are as they arrived.
\<close>

theorem ServeHTTP_frame:
  assumes "ServeHTTP e rw req = Forwarded w req'"
  shows "w = rw \<and>
     URL_Path req' = URL_Path req \<and>
     URL_RawQuery req' = URL_RawQuery req \<and>
     Host req' = Host req \<and>
     RemoteAddr req' = RemoteAddr req \<and>
     Proto req' = Proto req \<and>
     request.more req' = request.more req \<and>
     (\<forall>h. h \<noteq> ''Content-Type'' \<and> h \<noteq> ''Content-Length'' \<longrightarrow> Header req' h = Header req h) \<and>
     req' = req\<lparr>Body := Body req', ContentLength := ContentLength req', Header := Header req',
               Method := Method req', TransferEncoding := TransferEncoding req',
               RequestURI := RequestURI req'\<rparr>"
proof (cases "json_Marshal e (event e req)")
  case (Inl err)
  with assms show ?thesis
    by (simp add: ServeHTTP_failure)
next
  case (Inr d)
  with assms show ?thesis
    by (auto simp add: ServeHTTP_success)
qed

theorem ServeHTTP_frame_witness:
  "ServeHTTP example_env example_writer example_request =
     Forwarded example_writer
      (example_request
        \<lparr>Body := ''{}'', ContentLength := 2,
         Header := (Header example_request)(''Content-Type'' \<mapsto> [''application/json''],
                                             ''Content-Length'' \<mapsto> [''2'']),
         Method := ''POST'', TransferEncoding := [],
         RequestURI := ''/2015-03-31/functions/function/invocations''\<rparr>) \<and>
   URL_Path example_request = ''/items/7'' \<and>
   Header example_request ''Accept'' = Some [''a'', ''b'', ''c'']"
proof -
  have m: "json_Marshal example_env (event example_env example_request) = Inr ''{}''"
    by (simp add: example_env_def)
  have d: "fmt_d (Suc (Suc 0)) = ''2''"
    by (subst fmt_d.simps) (simp add: decimal_digits_def)
  have s: "ServeHTTP example_env example_writer example_request =
     Forwarded example_writer
      (example_request
        \<lparr>Body := ''{}'', ContentLength := 2,
         Header := (Header example_request)(''Content-Type'' \<mapsto> [''application/json''],
                                             ''Content-Length'' \<mapsto> [''2'']),
         Method := ''POST'', TransferEncoding := [],
         RequestURI := ''/2015-03-31/functions/function/invocations''\<rparr>)"
    using ServeHTTP_success [OF m, of example_writer] by (simp add: d)
  show ?thesis
    using ServeHTTP_frame [OF s] s by (simp add: example_request_def)
qed

section \<open>The headers and the identity source\<close>

lemma strings_Split_absent: "c \<notin> set v \<Longrightarrow> strings_Split v c = [v]"
  by (induction v) auto

lemma strings_Split_append:
  "c \<notin> set v \<Longrightarrow> strings_Split (v @ c # rest) c = v # strings_Split rest c"
  by (induction v) (auto split: list.split)

lemma strings_Split_Join:
  "vs \<noteq> [] \<Longrightarrow> \<forall>v\<in>set vs. c \<notin> set v \<Longrightarrow> strings_Split (strings_Join vs [c]) c = vs"
proof (induction vs "[c]" rule: strings_Join.induct)
  case 1
  then show ?case by simp
next
  case (2 x)
  then show ?case by (simp add: strings_Split_absent)
next
  case (3 x y ys)
  then show ?case by (simp add: strings_Split_append)
qed

lemma headersMap_Some: "Header req h = Some vs \<Longrightarrow> headersMap req h = Some (strings_Join vs '','')"
  by (simp add: headersMap_def)

lemma headersMap_None: "Header req h = None \<Longrightarrow> headersMap req h = None"
  by (simp add: headersMap_def)

lemma dom_headersMap: "dom (headersMap req) = dom (Header req)"
  by (auto simp add: headersMap_def dom_def split: option.splits)

lemma event_headers: "lookup (event e req) [''headers''] = Some (VStringMap (headersMap req))"
  by (simp add: event_def Let_def)

lemma event_identitySource:
  "lookup (event e req) [''identitySource''] = Some (VStrings (identitySrc req))"
  by (simp add: event_def Let_def)

lemma identitySrc_cases:
  "identitySrc req =
     (case Header req ''X-Session-Id'' of
        None \<Rightarrow> []
      | Some [] \<Rightarrow> []
      | Some (v # vs) \<Rightarrow> if v \<noteq> [] then [v] else [])"
  by (simp add: identitySrc_def header_Get_def canonical_keys Let_def
      split: option.split list.split)

text \<open>
  Claim C3, as the code has it. The \<open>headers\<close> field of the event has the names of
  the header collection, each with its values joined by commas in their order
  (\<open>a\<close>, \<open>b\<close>, \<open>c\<close> give \<open>a,b,c\<close>; splitting the joined string at the commas gives
  the values back when none of them holds a comma). A name whose list of values is
  empty is in the field too, with the empty string; only the names that are not in the
  collection are not in the field.
\<close>

theorem headers_folded:
  "lookup (event e req) [''headers''] = Some (VStringMap (headersMap req)) \<and>
   dom (headersMap req) = dom (Header req) \<and>
   (\<forall>h vs. Header req h = Some vs \<longrightarrow> headersMap req h = Some (strings_Join vs '','')) \<and>
   (\<forall>h vs. Header req h = Some vs \<and> vs \<noteq> [] \<and> (\<forall>v\<in>set vs. CHR '','' \<notin> set v) \<longrightarrow>
      (\<exists>s. headersMap req h = Some s \<and> strings_Split s CHR '','' = vs)) \<and>
   (\<forall>h. Header req h = Some [] \<longrightarrow> headersMap req h = Some []) \<and>
   strings_Join [a, b, c] '','' = a @ '','' @ b @ '','' @ c"
  by (simp add: event_headers dom_headersMap headersMap_Some strings_Split_Join
      del: lookup.simps)

theorem headers_folded_witness:
  "Header example_request ''Accept'' = Some [''a'', ''b'', ''c''] \<and>
   headersMap example_request ''Accept'' = Some ''a,b,c'' \<and>
   strings_Split ''a,b,c'' CHR '','' = [''a'', ''b'', ''c''] \<and>
   Header (example_request\<lparr>Header := [''X-Empty'' \<mapsto> []]\<rparr>) ''X-Empty'' = Some [] \<and>
   headersMap (example_request\<lparr>Header := [''X-Empty'' \<mapsto> []]\<rparr>) ''X-Empty'' = Some []"
proof -
  have a: "Header example_request ''Accept'' = Some [''a'', ''b'', ''c'']"
    by (simp add: example_request_def)
  have b: "Header (example_request\<lparr>Header := [''X-Empty'' \<mapsto> []]\<rparr>) ''X-Empty'' = Some []"
    by simp
  show ?thesis
    using headers_folded [of example_env example_request "''a''" "''b''" "''c''"]
      headers_folded [of example_env "example_request\<lparr>Header := [''X-Empty'' \<mapsto> []]\<rparr>"] a b
    by auto
qed

text \<open>
  The claim as it was written says that a name with no value is left out of the field.
  A request whose collection has the name \<open>X-Empty\<close> with the empty list of values
  gets an event where \<open>X-Empty\<close> is in the field, with the empty string.
\<close>

theorem headers_empty_value_counterexample:
  "Header (example_request\<lparr>Header := [''X-Empty'' \<mapsto> []]\<rparr>) ''X-Empty'' = Some [] \<and>
   lookup (event example_env (example_request\<lparr>Header := [''X-Empty'' \<mapsto> []]\<rparr>)) [''headers''] =
     Some (VStringMap (headersMap (example_request\<lparr>Header := [''X-Empty'' \<mapsto> []]\<rparr>))) \<and>
   headersMap (example_request\<lparr>Header := [''X-Empty'' \<mapsto> []]\<rparr>) ''X-Empty'' \<noteq> None"
  by (simp add: event_headers headersMap_def del: lookup.simps)

text \<open>
  Claim C5, as the code has it. In every event \<open>version\<close> is \<open>2.0\<close>, \<open>type\<close> is
  \<open>REQUEST\<close>, \<open>accountId\<close>, \<open>apiId\<close> and \<open>stage\<close> under \<open>requestContext\<close> are
  \<open>local\<close>, \<open>body\<close> is the empty string and \<open>isBase64Encoded\<close> is false.
  \<open>identitySource\<close> is the list of the first value of the header \<open>x-session-id\<close>
  when the header is there with a first value that is not empty, and the empty list
  otherwise.
\<close>

theorem envelope_constants:
  "lookup (event e req) [''version''] = Some (VString ''2.0'') \<and>
   lookup (event e req) [''type''] = Some (VString ''REQUEST'') \<and>
   lookup (event e req) [''requestContext'', ''accountId''] = Some (VString ''local'') \<and>
   lookup (event e req) [''requestContext'', ''apiId''] = Some (VString ''local'') \<and>
   lookup (event e req) [''requestContext'', ''stage''] = Some (VString ''local'') \<and>
   lookup (event e req) [''body''] = Some (VString []) \<and>
   lookup (event e req) [''isBase64Encoded''] = Some (VBool False) \<and>
   lookup (event e req) [''identitySource''] =
     Some (VStrings
       (case Header req (CanonicalMIMEHeaderKey ''x-session-id'') of
          None \<Rightarrow> []
        | Some [] \<Rightarrow> []
        | Some (v # vs) \<Rightarrow> if v \<noteq> [] then [v] else []))"
  by (simp add: event_identitySource identitySrc_cases canonical_keys del: lookup.simps)
    (simp add: event_def Let_def)

theorem envelope_constants_witness:
  "lookup (event example_env example_request) [''version''] = Some (VString ''2.0'') \<and>
   lookup (event example_env example_request) [''requestContext'', ''stage''] =
     Some (VString ''local'') \<and>
   lookup (event example_env example_request) [''identitySource''] =
     Some (VStrings [''sess-42'']) \<and>
   lookup (event example_env (example_request\<lparr>Header := Map.empty\<rparr>)) [''identitySource''] =
     Some (VStrings [])"
  using envelope_constants [of example_env example_request]
    envelope_constants [of example_env "example_request\<lparr>Header := Map.empty\<rparr>"]
  by (simp add: example_request_def canonical_keys)

text \<open>
  The claim as it was written says that \<open>identitySource\<close> holds the header's value
  whenever the header is present. A request with the header \<open>x-session-id\<close> present
  and empty gets the empty list, not the list of the empty string.
\<close>

theorem identitySource_empty_value_counterexample:
  "Header (example_request\<lparr>Header := [''X-Session-Id'' \<mapsto> [[]]]\<rparr>)
      (CanonicalMIMEHeaderKey ''x-session-id'') = Some [[]] \<and>
   lookup (event example_env (example_request\<lparr>Header := [''X-Session-Id'' \<mapsto> [[]]]\<rparr>))
      [''identitySource''] = Some (VStrings []) \<and>
   lookup (event example_env (example_request\<lparr>Header := [''X-Session-Id'' \<mapsto> [[]]]\<rparr>))
      [''identitySource''] \<noteq> Some (VStrings [[]])"
  by (simp add: event_identitySource identitySrc_cases canonical_keys del: lookup.simps)

text \<open>
  Claim C10. When the header \<open>x-session-id\<close> has the values \<open>v\<close>, ... in this
  order, \<open>identitySource\<close> is the list of \<open>v\<close> alone when \<open>v\<close> is not empty, while the
  \<open>headers\<close> field has all the values joined by commas; when \<open>v\<close> is the empty string,
  \<open>identitySource\<close> is the empty list, as it is when the header is absent.
\<close>

theorem identitySource_first_value:
  "(\<forall>v vs. Header req (CanonicalMIMEHeaderKey ''x-session-id'') = Some (v # vs) \<longrightarrow>
      lookup (event e req) [''identitySource''] = Some (VStrings (if v = [] then [] else [v])) \<and>
      lookup (event e req) [''headers''] = Some (VStringMap (headersMap req)) \<and>
      headersMap req (CanonicalMIMEHeaderKey ''x-session-id'') =
        Some (strings_Join (v # vs) '','')) \<and>
   (Header req (CanonicalMIMEHeaderKey ''x-session-id'') = None \<longrightarrow>
      lookup (event e req) [''identitySource''] = Some (VStrings []))"
  by (simp add: event_identitySource event_headers identitySrc_cases canonical_keys
      headersMap_Some del: lookup.simps)

theorem identitySource_first_value_witness:
  "Header example_request (CanonicalMIMEHeaderKey ''x-session-id'') =
     Some [''sess-42'', ''sess-43''] \<and>
   lookup (event example_env example_request) [''identitySource''] =
     Some (VStrings [''sess-42'']) \<and>
   headersMap example_request (CanonicalMIMEHeaderKey ''x-session-id'') =
     Some ''sess-42,sess-43'' \<and>
   Header (example_request\<lparr>Header := [''X-Session-Id'' \<mapsto> [[], ''sess-43'']]\<rparr>)
     (CanonicalMIMEHeaderKey ''x-session-id'') = Some [[], ''sess-43''] \<and>
   lookup (event example_env (example_request\<lparr>Header := [''X-Session-Id'' \<mapsto> [[], ''sess-43'']]\<rparr>))
     [''identitySource''] = Some (VStrings []) \<and>
   Header (example_request\<lparr>Header := Map.empty\<rparr>) (CanonicalMIMEHeaderKey ''x-session-id'') = None \<and>
   lookup (event example_env (example_request\<lparr>Header := Map.empty\<rparr>)) [''identitySource''] =
     Some (VStrings [])"
proof -
  have a: "Header example_request (CanonicalMIMEHeaderKey ''x-session-id'') =
      Some [''sess-42'', ''sess-43'']"
    by (simp add: example_request_def canonical_keys)
  have b: "Header (example_request\<lparr>Header := [''X-Session-Id'' \<mapsto> [[], ''sess-43'']]\<rparr>)
      (CanonicalMIMEHeaderKey ''x-session-id'') = Some [[], ''sess-43'']"
    by (simp add: canonical_keys)
  show ?thesis
    using identitySource_first_value [of example_request example_env]
      identitySource_first_value
        [of "example_request\<lparr>Header := [''X-Session-Id'' \<mapsto> [[], ''sess-43'']]\<rparr>" example_env]
      identitySource_first_value [of "example_request\<lparr>Header := Map.empty\<rparr>" example_env]
      a b
    by simp
qed

section \<open>The timestamp\<close>

lemma sint_int64: "- (2 ^ 63) \<le> x \<Longrightarrow> x < 2 ^ 63 \<Longrightarrow> sint (word_of_int x :: int64) = x"
  by (simp add: sint_sbintrunc' signed_take_bit_int_eq_self)

lemma sdiv_nonneg: "0 \<le> x \<Longrightarrow> 0 < y \<Longrightarrow> x sdiv y = x div (y :: int)"
  by (simp add: signed_divide_int_def sgn_if)

lemma timeEpoch_value:
  assumes "0 \<le> unixSec t" and "0 \<le> nsec t" and "nsec t < 1000000000"
    and "unixSec t * 1000000000 + nsec t < 2 ^ 63"
  shows "sint (int64_div (UnixNano t) 1000000) = unixSec t * 1000 + nsec t div 1000000"
proof -
  define x where "x = unixSec t * 1000000000 + nsec t"
  have x0: "0 \<le> x"
    using assms(1,2) by (simp add: x_def)
  have x1: "x < 2 ^ 63"
    using assms(4) by (simp add: x_def)
  have u: "sint (UnixNano t) = x"
    using x0 x1 by (simp add: UnixNano_def x_def [symmetric] sint_int64)
  have q0: "0 \<le> x div 1000000"
    using x0 by simp
  have "x div 1000000 \<le> x"
    using x0 by arith
  with x1 have q1: "x div 1000000 < 2 ^ 63"
    by simp
  have "sint (int64_div (UnixNano t) 1000000) = x div 1000000"
    using x0 q0 q1 by (simp add: int64_div_def u sdiv_nonneg sint_int64)
  also have "x = (unixSec t * 1000) * 1000000 + nsec t"
    by (simp add: x_def)
  also have "\<dots> div 1000000 = unixSec t * 1000 + nsec t div 1000000"
    by (rule div_mult_self3) simp
  finally show ?thesis .
qed

lemma timeEpoch_seconds:
  assumes "0 \<le> nsec t" and "nsec t < 1000000000"
  shows "(unixSec t * 1000 + nsec t div 1000000) div 1000 = unixSec t"
proof -
  have "0 \<le> nsec t div 1000000" and "nsec t div 1000000 < 1000"
    using assms by arith+
  then have "nsec t div 1000000 div 1000 = 0"
    by simp
  then show ?thesis
    by (simp add: div_mult_self3 del: div_mult_self3)
qed

lemma civil_from_days_inverse:
  assumes "civil_from_days z = (y, m, d)"
  shows "days_from_civil y m d = z \<and> 1 \<le> m \<and> m \<le> 12 \<and> 1 \<le> d \<and> d \<le> 31 \<and>
     (z + 719468) div 146097 * 400 \<le> y \<and> y \<le> (z + 719468) div 146097 * 400 + 400"
proof -
  define z' where "z' = z + 719468"
  define era where "era = z' div 146097"
  define doe where "doe = z' mod 146097"
  define c where "c = min 3 (doe div 36524)"
  define r where "r = doe - 36524 * c"
  define q where "q = r div 1461"
  define r2 where "r2 = r mod 1461"
  define a where "a = min 3 (r2 div 365)"
  define doy where "doy = r2 - 365 * a"
  define yoe where "yoe = 100 * c + 4 * q + a"
  define mp where "mp = (5 * doy + 2) div 153"
  define m0 where "m0 = (if mp < 10 then mp + 3 else mp - 9)"
  have "civil_from_days z =
      (yoe + era * 400 + (if m0 \<le> 2 then 1 else 0), m0, doy - (153 * mp + 2) div 5 + 1)"
    unfolding civil_from_days_def Let_def m0_def mp_def yoe_def doy_def a_def r2_def q_def r_def
      c_def doe_def era_def z'_def ..
  with assms have y: "y = yoe + era * 400 + (if m \<le> 2 then 1 else 0)"
    and m: "m = m0"
    and d: "d = doy - (153 * mp + 2) div 5 + 1"
    by auto
  have doe: "0 \<le> doe" "doe < 146097"
    by (simp_all add: doe_def)
  have c: "0 \<le> c" "c \<le> 3"
    using doe(1) by (simp_all add: c_def)
  have r: "0 \<le> r \<and> r \<le> 36524"
    using doe unfolding r_def c_def by arith
  have q: "0 \<le> q \<and> q \<le> 24"
    using r unfolding q_def by arith
  have r2: "0 \<le> r2" "r2 < 1461"
    by (simp_all add: r2_def)
  have a: "0 \<le> a" "a \<le> 3"
    using r2(1) by (simp_all add: a_def)
  have doy: "0 \<le> doy \<and> doy \<le> 365"
    using r2 unfolding doy_def a_def by arith
  have rq: "r = 1461 * q + r2"
    by (simp add: q_def r2_def)
  have yoe: "0 \<le> yoe" "yoe \<le> 399"
    using c q a by (simp_all add: yoe_def)
  have y4: "yoe div 4 = 25 * c + q"
    using a unfolding yoe_def by arith
  have y100: "yoe div 100 = c"
    using a q unfolding yoe_def by arith
  have "doe = 36524 * c + 1461 * q + 365 * a + doy"
    using rq by (simp add: r_def doy_def)
  then have f: "yoe * 365 + yoe div 4 - yoe div 100 + doy = doe"
    unfolding y4 y100 by (simp add: yoe_def)
  have mp: "0 \<le> mp \<and> mp \<le> 11"
    using doy unfolding mp_def by arith
  have dd: "1 \<le> d \<and> d \<le> 31"
    using doy unfolding d mp_def by arith
  have mm: "1 \<le> m \<and> m \<le> 12"
    using mp by (simp add: m m0_def)
  have mp': "(if m > 2 then m - 3 else m + 9) = mp"
    using mp by (simp add: m m0_def)
  have y': "y - (if m \<le> 2 then 1 else 0) = yoe + era * 400"
    by (simp add: y)
  have e: "(yoe + era * 400) div 400 = era" "(yoe + era * 400) mod 400 = yoe"
    using yoe by simp_all
  have doy': "(153 * mp + 2) div 5 + d - 1 = doy"
    by (simp add: d)
  have "days_from_civil y m d = era * 146097 + doe - 719468"
    unfolding days_from_civil_def Let_def y' mp' e doy' f ..
  also have "\<dots> = z"
    by (simp add: era_def doe_def z'_def)
  finally have inv: "days_from_civil y m d = z" .
  have "era * 400 \<le> y \<and> y \<le> era * 400 + 400"
    using yoe by (simp add: y)
  with inv mm dd show ?thesis
    by (simp add: era_def z'_def)
qed

lemma length_fmt_d: "0 < w \<Longrightarrow> n < 10 ^ w \<Longrightarrow> length (fmt_d n) \<le> w"
proof (induction n arbitrary: w rule: fmt_d.induct)
  case (1 n)
  show ?case
  proof (cases "n < 10")
    case True
    with 1(2) show ?thesis
      by (subst fmt_d.simps) simp
  next
    case False
    from False 1(3) have w: "1 < w"
      by (cases "w = 1") (use 1(2) in auto)
    then obtain v where v: "w = Suc v" "0 < v"
      by (cases w) auto
    from 1(3) have "n div 10 < 10 ^ v"
      by (simp add: v(1) less_mult_imp_div_less mult.commute)
    with 1(1) [OF False v(2)] have "length (fmt_d (n div 10)) \<le> v" .
    with False show ?thesis
      by (subst fmt_d.simps) (simp add: v(1))
  qed
qed

lemma digit_val_zero: "digit_val CHR ''0'' = Some 0"
  by (simp add: digit_val_def decimal_digits_def)

lemma atoi_acc_zeros: "atoi_acc 0 (replicate k CHR ''0'' @ s) = atoi_acc 0 s"
  by (induction k) (simp_all add: digit_val_zero)

lemma appendInt_nonneg:
  assumes "0 \<le> x" and "x < 10 ^ w" and "0 < w"
  shows "length (appendInt x w) = w \<and> atoi (appendInt x w) = Some (nat x)"
proof -
  have "nat x < 10 ^ w"
    using assms(1,2) by (simp add: nat_less_iff)
  with assms(3) have l: "length (fmt_d (nat x)) \<le> w"
    by (rule length_fmt_d)
  have a: "appendInt x w = replicate (w - length (fmt_d (nat x))) CHR ''0'' @ fmt_d (nat x)"
    using assms(1) by (simp add: appendInt_def Let_def)
  have len: "length (appendInt x w) = w"
    using l by (simp add: a)
  have "appendInt x w \<noteq> []"
    using len assms(3) by auto
  then have "atoi (appendInt x w) = atoi_acc 0 (fmt_d (nat x))"
    unfolding atoi_def by (simp add: a atoi_acc_zeros)
  with len show ?thesis
    by (simp add: atoi_acc_fmt_d)
qed

lemma unix_of_RFC3339_fields:
  assumes "length a = 4" "length b = 2" "length c = 2" "length d = 2" "length e = 2"
    "length f = 2"
    and "atoi a = Some y" "atoi b = Some m" "atoi c = Some dd" "atoi d = Some hh"
    "atoi e = Some mi" "atoi f = Some ss"
  shows "unix_of_RFC3339 (a @ ''-'' @ b @ ''-'' @ c @ ''T'' @ d @ '':'' @ e @ '':'' @ f @ ''Z'') =
     Some (days_from_civil (int y) (int m) (int dd) * 86400 + int hh * 3600 + int mi * 60
           + int ss)"
  using assms by (simp add: unix_of_RFC3339_def slice_def nth_append)

lemma hms_seconds:
  "(secs :: int) div 3600 * 3600 + secs mod 3600 div 60 * 60 + secs mod 60 = secs"
proof -
  have a: "secs mod 3600 mod 60 = secs mod 60"
    by (simp add: mod_mod_cancel)
  have "secs mod 3600 div 60 * 60 + secs mod 3600 mod 60 = secs mod 3600"
    by (rule div_mult_mod_eq)
  moreover have "secs div 3600 * 3600 + secs mod 3600 = secs"
    by (rule div_mult_mod_eq)
  ultimately show ?thesis
    unfolding a by linarith
qed

lemma time_Format_RFC3339_inverse:
  assumes "0 \<le> unixSec t" and "unixSec t < 10000000000"
  shows "unix_of_RFC3339 (time_Format_RFC3339 t) = Some (unixSec t) \<and>
     length (time_Format_RFC3339 t) = 20 \<and> last (time_Format_RFC3339 t) = CHR ''Z''"
proof -
  define days where "days = unixSec t div 86400"
  define secs where "secs = unixSec t mod 86400"
  obtain y m d where cfd: "civil_from_days days = (y, m, d)"
    by (cases "civil_from_days days") auto
  define hh where "hh = secs div 3600"
  define mi where "mi = secs mod 3600 div 60"
  define ss where "ss = secs mod 60"
  have fmt: "time_Format_RFC3339 t =
      appendInt y 4 @ ''-'' @ appendInt m 2 @ ''-'' @ appendInt d 2 @ ''T''
       @ appendInt hh 2 @ '':'' @ appendInt mi 2 @ '':'' @ appendInt ss 2 @ ''Z''"
    by (simp add: time_Format_RFC3339_def Let_def days_def [symmetric] secs_def [symmetric]
        cfd hh_def mi_def ss_def)
  have days: "0 \<le> days \<and> days \<le> 115740"
    using assms unfolding days_def by arith
  have secs: "0 \<le> secs" "secs < 86400"
    by (simp_all add: secs_def)
  have "0 \<le> hh \<and> hh < 100"
    using secs unfolding hh_def by arith
  then have hh: "0 \<le> hh" "hh < 10 ^ 2"
    by simp_all
  have "0 \<le> mi \<and> mi < 100"
    unfolding mi_def by arith
  then have mi: "0 \<le> mi" "mi < 10 ^ 2"
    by simp_all
  have "0 \<le> ss \<and> ss < 100"
    unfolding ss_def by arith
  then have ss: "0 \<le> ss" "ss < 10 ^ 2"
    by simp_all
  note inv = civil_from_days_inverse [OF cfd]
  have "0 \<le> (days + 719468) div 146097 \<and> (days + 719468) div 146097 \<le> 5"
    using days by arith
  with inv have y: "0 \<le> y" "y < 10 ^ 4"
    by simp_all
  from inv have m: "0 \<le> m" "m < 10 ^ 2" and d: "0 \<le> d" "d < 10 ^ 2"
    by simp_all
  note fields = appendInt_nonneg [OF y] appendInt_nonneg [OF m] appendInt_nonneg [OF d]
    appendInt_nonneg [OF hh] appendInt_nonneg [OF mi] appendInt_nonneg [OF ss]
  have "unix_of_RFC3339 (time_Format_RFC3339 t) =
      Some (days_from_civil (int (nat y)) (int (nat m)) (int (nat d)) * 86400
            + int (nat hh) * 3600 + int (nat mi) * 60 + int (nat ss))"
    unfolding fmt by (rule unix_of_RFC3339_fields) (simp_all add: fields)
  also have "\<dots> = Some (days * 86400 + (hh * 3600 + mi * 60 + ss))"
    using y m d hh mi ss inv by simp
  also have "hh * 3600 + mi * 60 + ss = secs"
    unfolding hh_def mi_def ss_def by (rule hms_seconds)
  also have "days * 86400 + secs = unixSec t"
    by (simp add: days_def secs_def)
  finally have r: "unix_of_RFC3339 (time_Format_RFC3339 t) = Some (unixSec t)" .
  have "length (time_Format_RFC3339 t) = 20"
    unfolding fmt by (simp add: fields)
  with r show ?thesis
    by (simp add: fmt)
qed

lemma event_time:
  "lookup (event e req) [''requestContext'', ''time''] =
     Some (VString (time_Format_RFC3339 (time_Now e)))"
  by (simp add: event_def Let_def)

lemma event_timeEpoch:
  "lookup (event e req) [''requestContext'', ''timeEpoch''] =
     Some (VInt64 (int64_div (UnixNano (time_Now e)) 1000000))"
  by (simp add: event_def Let_def)

text \<open>
  Claim C8. The handler reads the clock once, and \<open>time\<close> and \<open>timeEpoch\<close> are
  both derived from that one reading. The readings \<^verbatim>\<open>time.Now()\<close> gives the
  handler are at or after the Unix epoch and have a count of nanoseconds since the epoch
  that fits a signed 64-bit integer (up to 2262-04-11T23:47:16.854775807Z). For each of
  them \<open>time\<close> is the rendering of the instant in UTC as \<open>YYYY-MM-DDTHH:MM:SSZ\<close>
  and \<open>timeEpoch\<close> is its number of whole milliseconds since the epoch:
  \<open>timeEpoch\<close> divided by 1000 is the second of the instant, and reading \<open>time\<close>
  back gives the same second.
\<close>

theorem timestamp_consistent:
  assumes "0 \<le> unixSec (time_Now e)"
    and "0 \<le> nsec (time_Now e)" and "nsec (time_Now e) < 1000000000"
    and "unixSec (time_Now e) * 1000000000 + nsec (time_Now e) < 2 ^ 63"
  shows "\<exists>ms.
     lookup (event e req) [''requestContext'', ''time''] =
       Some (VString (time_Format_RFC3339 (time_Now e))) \<and>
     lookup (event e req) [''requestContext'', ''timeEpoch''] = Some (VInt64 ms) \<and>
     sint ms = unixSec (time_Now e) * 1000 + nsec (time_Now e) div 1000000 \<and>
     sint ms div 1000 = unixSec (time_Now e) \<and>
     sint ms sdiv 1000 = unixSec (time_Now e) \<and>
     unix_of_RFC3339 (time_Format_RFC3339 (time_Now e)) = Some (unixSec (time_Now e)) \<and>
     length (time_Format_RFC3339 (time_Now e)) = 20 \<and>
     last (time_Format_RFC3339 (time_Now e)) = CHR ''Z''"
proof -
  define ms where "ms = int64_div (UnixNano (time_Now e)) 1000000"
  have v: "sint ms = unixSec (time_Now e) * 1000 + nsec (time_Now e) div 1000000"
    unfolding ms_def using assms by (rule timeEpoch_value)
  have s: "sint ms div 1000 = unixSec (time_Now e)"
    unfolding v using assms(2,3) by (rule timeEpoch_seconds)
  have "0 \<le> sint ms"
    unfolding v using assms(1,2) by simp
  then have t: "sint ms sdiv 1000 = unixSec (time_Now e)"
    by (simp add: sdiv_nonneg s)
  have "unixSec (time_Now e) < 10000000000"
    using assms(2,4) by simp
  with assms(1) have
    "unix_of_RFC3339 (time_Format_RFC3339 (time_Now e)) = Some (unixSec (time_Now e)) \<and>
     length (time_Format_RFC3339 (time_Now e)) = 20 \<and>
     last (time_Format_RFC3339 (time_Now e)) = CHR ''Z''"
    by (rule time_Format_RFC3339_inverse)
  with v s t show ?thesis
    using event_time [of e req] event_timeEpoch [of e req] by (simp add: ms_def)
qed

theorem timestamp_consistent_witness:
  "0 \<le> unixSec (time_Now example_env) \<and>
   0 \<le> nsec (time_Now example_env) \<and> nsec (time_Now example_env) < 1000000000 \<and>
   unixSec (time_Now example_env) * 1000000000 + nsec (time_Now example_env) < 2 ^ 63 \<and>
   lookup (event example_env example_request) [''requestContext'', ''time''] =
     Some (VString ''2023-11-14T22:13:20Z'') \<and>
   lookup (event example_env example_request) [''requestContext'', ''timeEpoch''] =
     Some (VInt64 1700000000123) \<and>
   unix_of_RFC3339 ''2023-11-14T22:13:20Z'' = Some 1700000000 \<and>
   unixSec (time_Now example_env) = 1700000000"
proof -
  have h: "0 \<le> unixSec (time_Now example_env)" "0 \<le> nsec (time_Now example_env)"
    "nsec (time_Now example_env) < 1000000000"
    "unixSec (time_Now example_env) * 1000000000 + nsec (time_Now example_env) < 2 ^ 63"
    and u: "unixSec (time_Now example_env) = 1700000000"
    by (simp_all add: example_env_def)
  have f: "time_Format_RFC3339 (time_Now example_env) = ''2023-11-14T22:13:20Z''"
    by code_simp
  have g: "int64_div (UnixNano (time_Now example_env)) 1000000 = 1700000000123"
    by code_simp
  from timestamp_consistent [OF h, of example_request] show ?thesis
    using h u by (simp add: f event_timeEpoch g del: lookup.simps)
qed

end
